theory Spec2Isabelle
  imports Complex_Main "HOL-Library.AList"
begin

section \<open>Collaborative filtering on MovieLens: the recommender model\<close>

text \<open>
  The notebook \<^verbatim>\<open>collaborative_filtering_movielens.ipynb\<close> declares one class,
  \<^verbatim>\<open>RecommenderNet\<close>, holding four embedding tables, and one forward computation,
  \<^verbatim>\<open>call\<close>. Numbers are modelled as mathematical reals: the rounding of the
  framework's 32-bit floats is outside this development.
\<close>

datatype fault = InvalidArgument | ValueError | IndexError | DivisionByZero

text \<open>
  \<^verbatim>\<open>tf.nn.sigmoid\<close>, the logistic function.
\<close>

definition sigmoid :: "real \<Rightarrow> real" where
  "sigmoid x = 1 / (1 + exp (- x))"

text \<open>
  The fields set by \<^verbatim>\<open>__init__\<close>. A layer \<^verbatim>\<open>Embedding(n, k)\<close> is a table of
  \<open>n\<close> rows of \<open>k\<close> reals; the two bias layers have \<open>k = 1\<close> and are kept as one
  real per row.
\<close>

record RecommenderNet =
  num_users :: nat
  num_movies :: nat
  embedding_size :: nat
  user_embedding :: "real list list"
  user_bias :: "real list"
  movie_embedding :: "real list list"
  movie_bias :: "real list"

text \<open>
  The shapes that \<^verbatim>\<open>__init__\<close> gives the tables.
\<close>

definition wf_net :: "RecommenderNet \<Rightarrow> bool" where
  "wf_net net \<longleftrightarrow>
     length (user_embedding net) = num_users net \<and>
     length (user_bias net) = num_users net \<and>
     length (movie_embedding net) = num_movies net \<and>
     length (movie_bias net) = num_movies net \<and>
     list_all (\<lambda>row. length row = embedding_size net) (user_embedding net) \<and>
     list_all (\<lambda>row. length row = embedding_size net) (movie_embedding net)"

text \<open>
  Applying an embedding layer to a column of indices: one table row per index. An index
  outside the table is the framework's fault \<^verbatim>\<open>InvalidArgument\<close>.
\<close>

fun gather :: "'a list \<Rightarrow> int list \<Rightarrow> fault + 'a list" where
  "gather T [] = Inr []"
| "gather T (i # idxs) =
     (if 0 \<le> i \<and> i < int (length T)
      then (case gather T idxs of Inl e \<Rightarrow> Inl e | Inr rows \<Rightarrow> Inr (T ! nat i # rows))
      else Inl InvalidArgument)"

definition dot :: "real list \<Rightarrow> real list \<Rightarrow> real" where
  "dot xs ys = sum_list (map2 (*) xs ys)"

text \<open>
  \<^verbatim>\<open>tf.tensordot(a, b, 2)\<close> on two matrices of the same shape contracts both axes:
  the sum over all rows of the products of corresponding entries, one real for the
  whole batch.
\<close>

definition tensordot2 :: "real list list \<Rightarrow> real list list \<Rightarrow> real" where
  "tensordot2 a b = sum_list (map2 dot a b)"

text \<open>
  \<^verbatim>\<open>RecommenderNet.call\<close>. The input is a batch of rows \<open>(user index, movie index)\<close>;
  \<^verbatim>\<open>inputs[:, 0]\<close> and \<^verbatim>\<open>inputs[:, 1]\<close> are its two columns. The result is paired
  with the model after the evaluation; the method assigns to no field.
\<close>

definition call :: "RecommenderNet \<Rightarrow> (int \<times> int) list \<Rightarrow> (fault + real list) \<times> RecommenderNet" where
  "call net inputs =
     (case gather (user_embedding net) (map fst inputs) of
        Inl e \<Rightarrow> (Inl e, net)
      | Inr user_vector \<Rightarrow>
     (case gather (user_bias net) (map fst inputs) of
        Inl e \<Rightarrow> (Inl e, net)
      | Inr user_bias_rows \<Rightarrow>
     (case gather (movie_embedding net) (map snd inputs) of
        Inl e \<Rightarrow> (Inl e, net)
      | Inr movie_vector \<Rightarrow>
     (case gather (movie_bias net) (map snd inputs) of
        Inl e \<Rightarrow> (Inl e, net)
      | Inr movie_bias_rows \<Rightarrow>
          (let dot_user_movie = tensordot2 user_vector movie_vector;
               x = map2 (\<lambda>ub mb. dot_user_movie + ub + mb) user_bias_rows movie_bias_rows
           in (Inr (map sigmoid x), net))))))"

text \<open>
  The match score of one pair: the forward evaluation on the one-row input \<open>(u, m)\<close>.
\<close>

definition score :: "RecommenderNet \<Rightarrow> int \<Rightarrow> int \<Rightarrow> fault + real list" where
  "score net u m = fst (call net [(u, m)])"


text \<open>
  Two small models used to evaluate the definitions: two users and two movies with
  embedding size 2, and the one-user, one-movie model of embedding size 1.
\<close>

definition example_net :: RecommenderNet where
  "example_net = \<lparr>num_users = 2, num_movies = 2, embedding_size = 2,
     user_embedding = [[1, 2], [0, 0]], user_bias = [1 / 2, 0],
     movie_embedding = [[3, - 1], [0, 0]], movie_bias = [- 1 / 2, 0]\<rparr>"


text \<open>
  Storing a table in another order. The list \<open>p\<close> is a permutation of the row numbers
  and row \<open>i\<close> of the table is moved to position \<open>p ! i\<close>; \<open>index_of p j\<close> is the
  row that ends up at position \<open>j\<close>.
\<close>

fun index_of :: "nat list \<Rightarrow> nat \<Rightarrow> nat" where
  "index_of [] j = 0"
| "index_of (x # xs) j = (if x = j then 0 else Suc (index_of xs j))"

definition is_perm :: "nat list \<Rightarrow> nat \<Rightarrow> bool" where
  "is_perm p n \<longleftrightarrow> length p = n \<and> distinct p \<and> list_all (\<lambda>j. j < n) p"

definition permute_rows :: "nat list \<Rightarrow> 'a list \<Rightarrow> 'a list" where
  "permute_rows p T = map (\<lambda>j. T ! index_of p j) [0..<length T]"

definition permute_net :: "nat list \<Rightarrow> nat list \<Rightarrow> RecommenderNet \<Rightarrow> RecommenderNet" where
  "permute_net pu pm net =
     net\<lparr>user_embedding := permute_rows pu (user_embedding net),
         user_bias := permute_rows pu (user_bias net),
         movie_embedding := permute_rows pm (movie_embedding net),
         movie_bias := permute_rows pm (movie_bias net)\<rparr>"

section \<open>The training loss\<close>





section \<open>Preparing the ratings table\<close>

text \<open>
  A row of \<^verbatim>\<open>ratings.csv\<close>; the data frame \<^verbatim>\<open>df\<close> is the list of its rows.
\<close>

record rating_row =
  userId :: int
  movieId :: int
  rating :: real
  timestamp :: int

text \<open>
  \<^verbatim>\<open>Series.unique()\<close>: the distinct values, in order of first appearance.
\<close>

definition unique :: "'a list \<Rightarrow> 'a list" where
  "unique xs = rev (remdups (rev xs))"

text \<open>
  A dictionary comprehension over key/value pairs: a later pair overwrites the value of an
  earlier pair with the same key. Dictionaries are association lists in insertion order,
  \<^verbatim>\<open>len\<close> is \<^const>\<open>length\<close> and \<^verbatim>\<open>d.get(k)\<close> is \<^term>\<open>map_of d k\<close>.
\<close>

definition dict_of :: "('k \<times> 'v) list \<Rightarrow> ('k \<times> 'v) list" where
  "dict_of kvs = fold (\<lambda>(k, v) d. AList.update k v d) kvs []"

definition user_ids :: "rating_row list \<Rightarrow> int list" where
  "user_ids df = unique (map userId df)"

definition user2user_encoded :: "rating_row list \<Rightarrow> (int \<times> nat) list" where
  "user2user_encoded df = dict_of (map (\<lambda>(i, x). (x, i)) (enumerate 0 (user_ids df)))"

definition userencoded2user :: "rating_row list \<Rightarrow> (nat \<times> int) list" where
  "userencoded2user df = dict_of (map (\<lambda>(i, x). (i, x)) (enumerate 0 (user_ids df)))"

definition movie_ids :: "rating_row list \<Rightarrow> int list" where
  "movie_ids df = unique (map movieId df)"

definition movie2movie_encoded :: "rating_row list \<Rightarrow> (int \<times> nat) list" where
  "movie2movie_encoded df = dict_of (map (\<lambda>(i, x). (x, i)) (enumerate 0 (movie_ids df)))"

definition movie_encoded2movie :: "rating_row list \<Rightarrow> (nat \<times> int) list" where
  "movie_encoded2movie df = dict_of (map (\<lambda>(i, x). (i, x)) (enumerate 0 (movie_ids df)))"

definition num_users_df :: "rating_row list \<Rightarrow> nat" where
  "num_users_df df = length (user2user_encoded df)"

definition num_movies_df :: "rating_row list \<Rightarrow> nat" where
  "num_movies_df df = length (movie_encoded2movie df)"

text \<open>
  Python's \<^verbatim>\<open>min\<close> and \<^verbatim>\<open>max\<close> over a column: \<^verbatim>\<open>ValueError\<close> on an empty one.
\<close>

definition py_min :: "real list \<Rightarrow> fault + real" where
  "py_min xs = (case xs of [] \<Rightarrow> Inl ValueError | x # rest \<Rightarrow> Inr (fold min rest x))"

definition py_max :: "real list \<Rightarrow> fault + real" where
  "py_max xs = (case xs of [] \<Rightarrow> Inl ValueError | x # rest \<Rightarrow> Inr (fold max rest x))"

definition min_rating :: "rating_row list \<Rightarrow> fault + real" where
  "min_rating df = py_min (map rating df)"

definition max_rating :: "rating_row list \<Rightarrow> fault + real" where
  "max_rating df = py_max (map rating df)"

text \<open>
  The training targets \<^verbatim>\<open>y\<close>: the lambda
  \<^verbatim>\<open>(x - min_rating) / (max_rating - min_rating)\<close> applied to the rating column of the
  shuffled frame. A zero denominator gives no real number and is a fault of the model.
\<close>

definition y_targets :: "rating_row list \<Rightarrow> real \<Rightarrow> real \<Rightarrow> fault + real list" where
  "y_targets df mn mx =
     (if mx - mn = 0 then Inl DivisionByZero
      else Inr (map (\<lambda>x. (x - mn) / (mx - mn)) (map rating df)))"

text \<open>
  A small ratings table used to evaluate the definitions.
\<close>

definition example_df :: "rating_row list" where
  "example_df =
     [\<lparr>userId = 1, movieId = 10, rating = 4, timestamp = 100\<rparr>,
      \<lparr>userId = 1, movieId = 30, rating = 1 / 2, timestamp = 101\<rparr>,
      \<lparr>userId = 2, movieId = 10, rating = 5, timestamp = 102\<rparr>,
      \<lparr>userId = 2, movieId = 20, rating = 3, timestamp = 103\<rparr>,
      \<lparr>userId = 3, movieId = 50, rating = 2, timestamp = 104\<rparr>]"

section \<open>Showing recommendations\<close>

text \<open>
  \<^verbatim>\<open>df[df.userId == user_id]\<close>.
\<close>

definition movies_watched_by_user :: "rating_row list \<Rightarrow> int \<Rightarrow> rating_row list" where
  "movies_watched_by_user df user_id = filter (\<lambda>r. userId r = user_id) df"

text \<open>
  The candidate movies. \<open>movie_df\<close> is the \<^verbatim>\<open>movieId\<close> column of \<^verbatim>\<open>movies.csv\<close>.
  First the rows of \<open>movie_df\<close> whose id is not among the watched ones, then the
  intersection with the keys of \<^verbatim>\<open>movie2movie_encoded\<close>, as a set.
\<close>

definition movies_not_watched :: "int list \<Rightarrow> rating_row list \<Rightarrow> int \<Rightarrow> int set" where
  "movies_not_watched movie_df df user_id =
     set (filter (\<lambda>x. x \<notin> set (map movieId (movies_watched_by_user df user_id))) movie_df)
     \<inter> set (map fst (movie2movie_encoded df))"

text \<open>
  Movie \<open>x\<close> has no row by user \<open>user_id\<close> in the ratings table.
\<close>

definition not_rated_by :: "rating_row list \<Rightarrow> int \<Rightarrow> int \<Rightarrow> bool" where
  "not_rated_by df user_id x \<longleftrightarrow> list_all (\<lambda>r. userId r \<noteq> user_id \<or> movieId r \<noteq> x) df"

text \<open>
  \<^verbatim>\<open>list(s)\<close> lists each element of the set once, in an order of the interpreter's
  choosing: any list accepted by this predicate.
\<close>

definition list_of_set :: "'a set \<Rightarrow> 'a list \<Rightarrow> bool" where
  "list_of_set s xs \<longleftrightarrow> distinct xs \<and> set xs = s"

text \<open>
  \<^verbatim>\<open>[[movie2movie_encoded.get(x)] for x in movies_not_watched]\<close>; a missing key gives
  \<^verbatim>\<open>None\<close>.
\<close>

definition encode_candidates :: "(int \<times> nat) list \<Rightarrow> int list \<Rightarrow> nat option list" where
  "encode_candidates enc cands = map (map_of enc) cands"

text \<open>
  \<^verbatim>\<open>ratings.argsort()[-10:][::-1]\<close>, from the result of \<^verbatim>\<open>argsort\<close>: its last ten
  entries, reversed.
\<close>

definition top_ratings_indices :: "nat list \<Rightarrow> nat list" where
  "top_ratings_indices sorted_indices =
     rev (drop (length sorted_indices - 10) sorted_indices)"

text \<open>
  \<^verbatim>\<open>[movie_encoded2movie.get(movies_not_watched[x][0]) for x in top_ratings_indices]\<close>.
\<close>

fun recommended_movie_ids ::
  "(nat \<times> int) list \<Rightarrow> nat option list \<Rightarrow> nat list \<Rightarrow> fault + int option list" where
  "recommended_movie_ids dec cands [] = Inr []"
| "recommended_movie_ids dec cands (x # xs) =
     (if x < length cands
      then (case recommended_movie_ids dec cands xs of
              Inl e \<Rightarrow> Inl e
            | Inr rest \<Rightarrow>
                Inr ((case cands ! x of None \<Rightarrow> None | Some i \<Rightarrow> map_of dec i) # rest))
      else Inl IndexError)"

section \<open>Bidirectional LSTM on IMDB: the sentiment model\<close>

definition max_features :: nat where
  "max_features = 20000"

definition maxlen :: nat where
  "maxlen = 200"

text \<open>
  \<^verbatim>\<open>pad_sequences(x, maxlen=maxlen)\<close> on one sequence, with the framework's defaults:
  zeros are added in front, and a longer sequence loses its front.
\<close>

definition pad_sequences :: "nat \<Rightarrow> int list \<Rightarrow> int list" where
  "pad_sequences n xs =
     (if n \<le> length xs then drop (length xs - n) xs
      else replicate (n - length xs) 0 @ xs)"

text \<open>
  A recurrent layer: an initial state and the cell's step, which maps a state and one
  input vector to the next state and one output vector. The cell's arithmetic is the
  framework's and is a parameter here.
\<close>

record 'st lstm =
  lstm_init :: 'st
  lstm_step :: "'st \<Rightarrow> real list \<Rightarrow> 'st \<times> real list"

text \<open>
  \<^verbatim>\<open>layers.LSTM(64, return_sequences=True)\<close>: the outputs of all time steps.
\<close>

fun lstm_outputs :: "('st \<Rightarrow> real list \<Rightarrow> 'st \<times> real list) \<Rightarrow> 'st \<Rightarrow> real list list \<Rightarrow> real list list" where
  "lstm_outputs stp s [] = []"
| "lstm_outputs stp s (x # xs) = (case stp s x of (s', h) \<Rightarrow> h # lstm_outputs stp s' xs)"

definition LSTM :: "'st lstm \<Rightarrow> real list list \<Rightarrow> real list list" where
  "LSTM layer xs = lstm_outputs (lstm_step layer) (lstm_init layer) xs"

text \<open>
  \<^verbatim>\<open>layers.Bidirectional\<close>: one pass over the sequence, one over the reversed sequence
  whose outputs are put back in time order, and the two outputs of each time step
  concatenated.
\<close>

definition Bidirectional :: "'f lstm \<Rightarrow> 'b lstm \<Rightarrow> real list list \<Rightarrow> real list list" where
  "Bidirectional fw bw xs = map2 (@) (LSTM fw xs) (rev (LSTM bw (rev xs)))"

text \<open>
  \<^verbatim>\<open>layers.Dense(units, activation)\<close> on one vector; the kernel is the list of its
  columns, one per unit. On a sequence the layer acts on each time step.
\<close>

definition Dense :: "real list list \<Rightarrow> real list \<Rightarrow> (real \<Rightarrow> real) \<Rightarrow> real list \<Rightarrow> real list" where
  "Dense w bias activation x = map2 (\<lambda>col b. activation (dot x col + b)) w bias"

record ('f, 'b) imdb_net =
  embedding :: "real list list"
  forward_layer :: "'f lstm"
  backward_layer :: "'b lstm"
  dense_kernel :: "real list list"
  dense_bias :: "real list"
  output_kernel :: "real list list"
  output_bias :: "real list"

text \<open>
  The functional model of the notebook on one input sequence:
  \<^verbatim>\<open>Embedding\<close>, \<^verbatim>\<open>Bidirectional(LSTM(64, return_sequences=True))\<close>,
  \<^verbatim>\<open>Dense(64, activation="linear")\<close>, \<^verbatim>\<open>Dense(1, activation="sigmoid")\<close>.
\<close>

definition model :: "('f, 'b) imdb_net \<Rightarrow> int list \<Rightarrow> fault + real list list" where
  "model net inputs =
     (case gather (embedding net) inputs of
        Inl e \<Rightarrow> Inl e
      | Inr x0 \<Rightarrow>
          (let x = Bidirectional (forward_layer net) (backward_layer net) x0;
               y = map (Dense (dense_kernel net) (dense_bias net) (\<lambda>v. v)) x;
               outputs = map (Dense (output_kernel net) (output_bias net) sigmoid) y
           in Inr outputs))"

text \<open>
  The shapes of the layers as the notebook declares them.
\<close>

definition wf_imdb_net :: "('f, 'b) imdb_net \<Rightarrow> bool" where
  "wf_imdb_net net \<longleftrightarrow>
     length (embedding net) = max_features \<and>
     length (dense_kernel net) = 64 \<and> length (dense_bias net) = 64 \<and>
     length (output_kernel net) = 1 \<and> length (output_bias net) = 1"

text \<open>
  A small sentiment model used to evaluate the definitions: both recurrent cells pass
  their input through.
\<close>

definition example_imdb_net :: "(unit, unit) imdb_net" where
  "example_imdb_net =
     \<lparr>embedding = replicate 20000 [1],
      forward_layer = \<lparr>lstm_init = (), lstm_step = (\<lambda>s x. (s, x))\<rparr>,
      backward_layer = \<lparr>lstm_init = (), lstm_step = (\<lambda>s x. (s, x))\<rparr>,
      dense_kernel = replicate 64 [1, 1], dense_bias = replicate 64 0,
      output_kernel = [replicate 64 0], output_bias = [0]\<rparr>"

section \<open>Properties of the match score\<close>

lemma sigmoid_pos: "0 < sigmoid x"
  by (simp add: sigmoid_def add_pos_pos)

lemma sigmoid_less_one: "sigmoid x < 1"
  by (simp add: sigmoid_def add_pos_pos)

lemma sigmoid_zero: "sigmoid 0 = 1 / 2"
  by (simp add: sigmoid_def)


lemma tensordot2_single: "tensordot2 [a] [b] = dot a b"
  by (simp add: tensordot2_def)

lemma dot_zero: "dot (replicate n 0) ys = 0"
proof (induction n arbitrary: ys)
  case 0
  then show ?case by (simp add: dot_def)
next
  case (Suc n)
  then show ?case by (cases ys) (simp_all add: dot_def)
qed

text \<open>
  The forward evaluation on a one-row input, from the table lengths alone.
\<close>

lemma call_single_rows:
  assumes "0 \<le> u" "u < int (length (user_embedding net))" "u < int (length (user_bias net))"
    and "0 \<le> m" "m < int (length (movie_embedding net))" "m < int (length (movie_bias net))"
  shows "call net [(u, m)] =
           (Inr [sigmoid (dot (user_embedding net ! nat u) (movie_embedding net ! nat m)
                          + user_bias net ! nat u + movie_bias net ! nat m)], net)"
  using assms by (simp add: call_def tensordot2_single Let_def)

lemma call_single:
  assumes "wf_net net" "0 \<le> u" "u < int (num_users net)" "0 \<le> m" "m < int (num_movies net)"
  shows "call net [(u, m)] =
           (Inr [sigmoid (dot (user_embedding net ! nat u) (movie_embedding net ! nat m)
                          + user_bias net ! nat u + movie_bias net ! nat m)], net)"
  using assms by (intro call_single_rows) (simp_all add: wf_net_def)

text \<open>
  On a batch of two rows the contraction over both axes gives every row the sum of both
  rows' dot products: inside a larger batch the score of a row is not the score of the
  same pair evaluated alone.
\<close>

lemma call_two_rows:
  assumes "wf_net net" "0 \<le> u" "u < int (num_users net)" "0 \<le> m" "m < int (num_movies net)"
    and "0 \<le> u'" "u' < int (num_users net)" "0 \<le> m'" "m' < int (num_movies net)"
  shows "fst (call net [(u, m), (u', m')]) =
           Inr [sigmoid (dot (user_embedding net ! nat u) (movie_embedding net ! nat m)
                         + dot (user_embedding net ! nat u') (movie_embedding net ! nat m')
                         + user_bias net ! nat u + movie_bias net ! nat m),
                sigmoid (dot (user_embedding net ! nat u) (movie_embedding net ! nat m)
                         + dot (user_embedding net ! nat u') (movie_embedding net ! nat m')
                         + user_bias net ! nat u' + movie_bias net ! nat m')]"
  using assms by (simp add: call_def wf_net_def tensordot2_def Let_def)

text \<open>
  Over the reals every score that \<^const>\<open>call\<close> returns, whatever the batch, is a value of
  the logistic function and lies strictly between 0 and 1; in the framework's 32-bit
  arithmetic, which is not modelled, the sigmoid also returns 0.0 and 1.0. The model
  comes back from the evaluation as it went in.
\<close>

lemma call_outputs_in_unit_interval:
  "call net inputs = (Inr ys, net') \<Longrightarrow> s \<in> set ys \<Longrightarrow> 0 < s \<and> s < 1"
  by (auto simp: call_def Let_def sigmoid_pos sigmoid_less_one split: sum.splits)

lemma call_keeps_net: "snd (call net inputs) = net"
  by (simp add: call_def Let_def split: sum.splits)

lemma wf_example_net: "wf_net example_net"
  by (simp add: wf_net_def example_net_def)

lemma sigmoid_strict_mono: "a < b \<Longrightarrow> sigmoid a < sigmoid b"
  unfolding sigmoid_def by (intro divide_strict_left_mono) (simp_all add: add_pos_pos)

text \<open>
  Evaluated alone, as a one-row batch, a valid pair gets the score that the notebook
  announces, the sigmoid of its own dot product plus its two biases, and a pair whose two
  vectors and two biases are zero gets 1/2.
\<close>

lemma score_alone_of_zero_vectors:
  assumes "wf_net net" "0 \<le> u" "u < int (num_users net)" "0 \<le> m" "m < int (num_movies net)"
    and "user_embedding net ! nat u = replicate (embedding_size net) 0"
    and "movie_embedding net ! nat m = replicate (embedding_size net) 0"
    and "user_bias net ! nat u = 0" and "movie_bias net ! nat m = 0"
  shows "score net u m = Inr [1 / 2]"
  using call_single [OF assms(1-5)] assms(6-9)
  by (simp add: score_def dot_zero sigmoid_zero)

text \<open>
  Claim C1. For every user index \<open>u\<close> with \<open>0 \<le> u < num_users\<close> and movie index \<open>m\<close>
  with \<open>0 \<le> m < num_movies\<close>, the forward evaluation \<^verbatim>\<open>RecommenderNet.call\<close> is to
  return exactly \<open>sigmoid (user_vec[u] \<cdot> movie_vec[m] + user_bias[u] + movie_bias[m])\<close>.
  The code does not: on the two-row batch \<open>[(0, 0), (1, 0)]\<close> of the example model the
  row \<open>(1, 0)\<close>, whose formula gives \<open>sigmoid (- 1/2)\<close>, is returned as
  \<open>sigmoid (1/2)\<close>, because the dot product of row \<open>(0, 0)\<close> is added to it.
\<close>

theorem call_batch_row_differs_from_formula:
  "sigmoid (dot (user_embedding example_net ! 1) (movie_embedding example_net ! 0)
            + user_bias example_net ! 1 + movie_bias example_net ! 0) = sigmoid (- 1 / 2)
     \<and> fst (call example_net [(0, 0), (1, 0)]) = Inr [sigmoid 1, sigmoid (1 / 2)]
     \<and> sigmoid (1 / 2) \<noteq> sigmoid (- 1 / 2)"
proof (intro conjI)
  show "sigmoid (dot (user_embedding example_net ! 1) (movie_embedding example_net ! 0)
            + user_bias example_net ! 1 + movie_bias example_net ! 0) = sigmoid (- 1 / 2)"
    by (simp add: example_net_def dot_def)
  show "fst (call example_net [(0, 0), (1, 0)]) = Inr [sigmoid 1, sigmoid (1 / 2)]"
    by (simp add: call_def example_net_def tensordot2_def dot_def Let_def)
  show "sigmoid (1 / 2) \<noteq> sigmoid (- 1 / 2)"
    using sigmoid_strict_mono [of "- 1 / 2" "1 / 2"] by simp
qed

text \<open>
  Claim C6. For valid indices \<open>u\<close> and \<open>m\<close>, if the user vector and the movie vector are
  both the zero vector and both biases are 0, the score is to be 0.5 exactly. The code
  does not return it inside a batch: user 1 and movie 1 of the example model have zero
  vectors and zero biases, and on the batch \<open>[(1, 1), (0, 0)]\<close> the row \<open>(1, 1)\<close> is
  returned as \<open>sigmoid 1\<close>, the dot product of the other row having been added.
\<close>

theorem zero_pair_in_batch_not_half:
  "user_embedding example_net ! 1 = replicate (embedding_size example_net) 0
     \<and> movie_embedding example_net ! 1 = replicate (embedding_size example_net) 0
     \<and> user_bias example_net ! 1 = 0 \<and> movie_bias example_net ! 1 = 0
     \<and> fst (call example_net [(1, 1), (0, 0)]) = Inr [sigmoid 1, sigmoid 1]
     \<and> sigmoid 1 \<noteq> 1 / 2"
proof (intro conjI)
  show "fst (call example_net [(1, 1), (0, 0)]) = Inr [sigmoid 1, sigmoid 1]"
    by (simp add: call_def example_net_def tensordot2_def dot_def Let_def)
  show "sigmoid 1 \<noteq> 1 / 2"
    using sigmoid_strict_mono [of 0 1] by (simp add: sigmoid_zero)
qed (simp_all add: example_net_def numeral_2_eq_2)

subsection \<open>The worked example\<close>





subsection \<open>Storage order of the tables\<close>

lemma index_of_nth: "distinct p \<Longrightarrow> i < length p \<Longrightarrow> index_of p (p ! i) = i"
proof (induction p arbitrary: i)
  case Nil
  then show ?case by simp
next
  case (Cons x xs)
  show ?case
  proof (cases i)
    case 0
    then show ?thesis by simp
  next
    case (Suc k)
    with Cons.prems have "k < length xs" "xs ! k \<in> set xs" "x \<notin> set xs" "distinct xs"
      by simp_all
    then have "x \<noteq> xs ! k" by blast
    with Suc Cons.IH [of k] \<open>distinct xs\<close> \<open>k < length xs\<close> show ?thesis by simp
  qed
qed

lemma permute_rows_length: "length (permute_rows p T) = length T"
  by (simp add: permute_rows_def)

lemma permute_rows_nth:
  assumes "is_perm p (length T)" "i < length T"
  shows "p ! i < length T \<and> permute_rows p T ! (p ! i) = T ! i"
proof -
  from assms have len: "length p = length T" and d: "distinct p"
    and b: "\<forall>j\<in>set p. j < length T"
    by (simp_all add: is_perm_def list_all_iff)
  from assms(2) len have "p ! i \<in> set p" by simp
  with b have lt: "p ! i < length T" by blast
  from d assms(2) len have "index_of p (p ! i) = i" by (simp add: index_of_nth)
  with lt show ?thesis by (simp add: permute_rows_def)
qed

text \<open>
  Claim C5. Let the rows of the user tables be stored in another order, the same for
  \<open>user_vec\<close> and \<open>user_bias\<close>, and likewise the rows of the movie tables. Then for
  all valid indices \<open>u\<close>, \<open>m\<close> the score computed from the permuted tables at the new
  positions of rows \<open>u\<close> and \<open>m\<close> equals the score computed from the original tables at
  \<open>(u, m)\<close>: the score depends on which vectors and biases are selected, not on the
  storage order.
\<close>

theorem score_permutation_invariant:
  assumes "wf_net net" "is_perm pu (num_users net)" "is_perm pm (num_movies net)"
    and "0 \<le> u" "u < int (num_users net)" "0 \<le> m" "m < int (num_movies net)"
  shows "score (permute_net pu pm net) (int (pu ! nat u)) (int (pm ! nat m)) = score net u m"
proof -
  let ?net' = "permute_net pu pm net"
  from assms(1) have lens: "length (user_embedding net) = num_users net"
    "length (user_bias net) = num_users net" "length (movie_embedding net) = num_movies net"
    "length (movie_bias net) = num_movies net"
    by (simp_all add: wf_net_def)
  have nu: "nat u < num_users net" and nm: "nat m < num_movies net"
    using assms(4-7) by simp_all
  have ue: "pu ! nat u < num_users net \<and> permute_rows pu (user_embedding net) ! (pu ! nat u) = user_embedding net ! nat u"
    using permute_rows_nth [of pu "user_embedding net" "nat u"] assms(2) nu lens by simp
  have ub: "permute_rows pu (user_bias net) ! (pu ! nat u) = user_bias net ! nat u"
    using permute_rows_nth [of pu "user_bias net" "nat u"] assms(2) nu lens by simp
  have me: "pm ! nat m < num_movies net \<and> permute_rows pm (movie_embedding net) ! (pm ! nat m) = movie_embedding net ! nat m"
    using permute_rows_nth [of pm "movie_embedding net" "nat m"] assms(3) nm lens by simp
  have mb: "permute_rows pm (movie_bias net) ! (pm ! nat m) = movie_bias net ! nat m"
    using permute_rows_nth [of pm "movie_bias net" "nat m"] assms(3) nm lens by simp
  have "call ?net' [(int (pu ! nat u), int (pm ! nat m))] =
          (Inr [sigmoid (dot (user_embedding ?net' ! nat (int (pu ! nat u)))
                             (movie_embedding ?net' ! nat (int (pm ! nat m)))
                         + user_bias ?net' ! nat (int (pu ! nat u))
                         + movie_bias ?net' ! nat (int (pm ! nat m)))], ?net')"
    using ue me lens by (intro call_single_rows) (simp_all add: permute_net_def permute_rows_length)
  moreover have "user_embedding ?net' = permute_rows pu (user_embedding net)"
    "user_bias ?net' = permute_rows pu (user_bias net)"
    "movie_embedding ?net' = permute_rows pm (movie_embedding net)"
    "movie_bias ?net' = permute_rows pm (movie_bias net)"
    by (simp_all add: permute_net_def)
  ultimately have "score ?net' (int (pu ! nat u)) (int (pm ! nat m)) =
      Inr [sigmoid (dot (user_embedding net ! nat u) (movie_embedding net ! nat m)
                    + user_bias net ! nat u + movie_bias net ! nat m)]"
    using ue ub me mb by (simp add: score_def)
  moreover have "score net u m =
      Inr [sigmoid (dot (user_embedding net ! nat u) (movie_embedding net ! nat m)
                    + user_bias net ! nat u + movie_bias net ! nat m)]"
    using call_single [OF assms(1) assms(4-7)] by (simp add: score_def)
  ultimately show ?thesis by simp
qed

theorem score_permutation_invariant_witness:
  "wf_net example_net \<and> is_perm [1, 0] (num_users example_net)
     \<and> is_perm [1, 0] (num_movies example_net)
     \<and> permute_net [1, 0] [1, 0] example_net
         = example_net\<lparr>user_embedding := [[0, 0], [1, 2]], user_bias := [0, 1 / 2],
                          movie_embedding := [[0, 0], [3, - 1]], movie_bias := [0, - 1 / 2]\<rparr>
     \<and> score (permute_net [1, 0] [1, 0] example_net) 1 1 = score example_net 0 0"
proof -
  have w: "wf_net example_net" by (rule wf_example_net)
  have pu: "is_perm [1, 0] (num_users example_net)"
    and pm: "is_perm [1, 0] (num_movies example_net)"
    by (simp_all add: is_perm_def example_net_def)
  have "score (permute_net [1, 0] [1, 0] example_net) (int ([1, 0] ! nat 0)) (int ([1, 0] ! nat 0))
          = score example_net 0 0"
    by (rule score_permutation_invariant [OF w pu pm]) (simp_all add: example_net_def)
  moreover have "permute_net [1, 0] [1, 0] example_net
         = example_net\<lparr>user_embedding := [[0, 0], [1, 2]], user_bias := [0, 1 / 2],
                          movie_embedding := [[0, 0], [3, - 1]], movie_bias := [0, - 1 / 2]\<rparr>"
    by (simp add: permute_net_def permute_rows_def example_net_def upt_rec)
  ultimately show ?thesis using w pu pm by simp
qed

section \<open>Properties of the prepared data\<close>

lemma py_min_le: "py_min xs = Inr mn \<Longrightarrow> x \<in> set xs \<Longrightarrow> mn \<le> x"
proof (cases xs)
  case Nil
  then show "py_min xs = Inr mn \<Longrightarrow> x \<in> set xs \<Longrightarrow> mn \<le> x" by simp
next
  case (Cons a rest)
  assume "py_min xs = Inr mn" "x \<in> set xs"
  with Cons have "mn = fold min rest a" and x: "x \<in> set (a # rest)"
    by (simp_all add: py_min_def)
  then have "mn = Min (set (a # rest))" by (simp only: Min.set_eq_fold)
  with x show "mn \<le> x" by simp
qed

lemma py_max_ge: "py_max xs = Inr mx \<Longrightarrow> x \<in> set xs \<Longrightarrow> x \<le> mx"
proof (cases xs)
  case Nil
  then show "py_max xs = Inr mx \<Longrightarrow> x \<in> set xs \<Longrightarrow> x \<le> mx" by simp
next
  case (Cons a rest)
  assume "py_max xs = Inr mx" "x \<in> set xs"
  with Cons have "mx = fold max rest a" and x: "x \<in> set (a # rest)"
    by (simp_all add: py_max_def)
  then have "mx = Max (set (a # rest))" by (simp only: Max.set_eq_fold)
  with x show "x \<le> mx" by simp
qed

lemma normalized_bounds:
  fixes x :: real
  assumes "mn \<le> x" "x \<le> mx" "mn < mx"
  shows "0 \<le> (x - mn) / (mx - mn) \<and> (x - mn) / (mx - mn) \<le> 1"
  using assms by simp

text \<open>
  Claim C8. With \<open>min_rating\<close> the minimum and \<open>max_rating\<close> the maximum rating of the
  table and \<open>min_rating < max_rating\<close>, the training targets are defined, one per row of
  the shuffled table, and every one of them,
  \<open>(r - min_rating) / (max_rating - min_rating)\<close>, lies in \<open>[0, 1]\<close>.
\<close>

theorem normalized_targets_in_unit_interval:
  assumes "min_rating df = Inr mn" "max_rating df = Inr mx" "mn < mx"
    and "set shuffled = set df"
  shows "\<exists>ys. y_targets shuffled mn mx = Inr ys \<and> length ys = length shuffled
           \<and> (\<forall>t\<in>set ys. 0 \<le> t \<and> t \<le> 1)"
proof -
  let ?ys = "map (\<lambda>x. (x - mn) / (mx - mn)) (map rating shuffled)"
  have "y_targets shuffled mn mx = Inr ?ys"
    using assms(3) by (simp add: y_targets_def)
  moreover have "\<forall>t\<in>set ?ys. 0 \<le> t \<and> t \<le> 1"
  proof
    fix t assume "t \<in> set ?ys"
    then obtain r where r: "r \<in> set shuffled" and t: "t = (rating r - mn) / (mx - mn)"
      by auto
    from r assms(4) have "rating r \<in> set (map rating df)" by simp
    with assms(1,2) have "mn \<le> rating r" "rating r \<le> mx"
      by (auto simp: min_rating_def max_rating_def intro: py_min_le py_max_ge)
    with assms(3) t show "0 \<le> t \<and> t \<le> 1" using normalized_bounds by simp
  qed
  ultimately show ?thesis by simp
qed

theorem normalized_targets_in_unit_interval_witness:
  "min_rating example_df = Inr (1 / 2) \<and> max_rating example_df = Inr 5
     \<and> y_targets (rev example_df) (1 / 2) 5 = Inr [1 / 3, 5 / 9, 1, 0, 7 / 9]
     \<and> (\<exists>ys. y_targets (rev example_df) (1 / 2) 5 = Inr ys \<and> length ys = length (rev example_df)
           \<and> (\<forall>t\<in>set ys. 0 \<le> t \<and> t \<le> 1))"
proof -
  have mn: "min_rating example_df = Inr (1 / 2)"
    by (simp add: min_rating_def py_min_def example_df_def)
  have mx: "max_rating example_df = Inr 5"
    by (simp add: max_rating_def py_max_def example_df_def)
  have lt: "(1 / 2 :: real) < 5" by simp
  have sh: "set (rev example_df) = set example_df" by simp
  have "y_targets (rev example_df) (1 / 2) 5 = Inr [1 / 3, 5 / 9, 1, 0, 7 / 9]"
    by (simp add: y_targets_def example_df_def)
  with normalized_targets_in_unit_interval [OF mn mx lt sh] mn mx show ?thesis by blast
qed

section \<open>Properties of the recommendation stage\<close>

lemma fold_update_map_of:
  "map_of (fold (\<lambda>(k, v) d. AList.update k v d) kvs acc) = map_of acc ++ map_of (rev kvs)"
proof (induction kvs arbitrary: acc)
  case Nil
  then show ?case by simp
next
  case (Cons kv kvs)
  obtain k v where kv: "kv = (k, v)" by (cases kv)
  show ?case
    by (rule ext) (simp add: kv Cons.IH AList.update_conv' map_add_def split: option.splits)
qed

lemma fold_update_keys:
  "fst ` set (fold (\<lambda>(k, v) d. AList.update k v d) kvs acc) = fst ` set kvs \<union> fst ` set acc"
proof (induction kvs arbitrary: acc)
  case Nil
  then show ?case by simp
next
  case (Cons kv kvs)
  obtain k v where kv: "kv = (k, v)" by (cases kv)
  show ?case by (auto simp: kv Cons.IH AList.dom_update)
qed

lemma length_update:
  "length (AList.update k v al) = (if k \<in> fst ` set al then length al else Suc (length al))"
  by (induction al) auto

lemma fold_update_length:
  "distinct (map fst kvs) \<Longrightarrow> fst ` set kvs \<inter> fst ` set acc = {} \<Longrightarrow>
     length (fold (\<lambda>(k, v) d. AList.update k v d) kvs acc) = length acc + length kvs"
proof (induction kvs arbitrary: acc)
  case Nil
  then show ?case by simp
next
  case (Cons kv kvs)
  obtain k v where kv: "kv = (k, v)" by (cases kv)
  from Cons.prems kv have k: "k \<notin> fst ` set acc" "k \<notin> fst ` set kvs" "distinct (map fst kvs)"
    and dj: "fst ` set kvs \<inter> fst ` set acc = {}"
    by auto
  have "fst ` set kvs \<inter> fst ` set (AList.update k v acc) = {}"
    using k dj by (auto simp: AList.dom_update)
  with Cons.IH [of "AList.update k v acc"] k show ?case
    by (simp add: kv length_update)
qed

lemma dict_of_keys: "set (map fst (dict_of kvs)) = set (map fst kvs)"
  using fold_update_keys [of kvs "[]"] by (simp add: dict_of_def)

lemma dict_of_SomeD: "map_of (dict_of kvs) k = Some v \<Longrightarrow> (k, v) \<in> set kvs"
  using map_of_SomeD [of "rev kvs" k v] by (simp add: dict_of_def fold_update_map_of)

lemma dict_of_SomeI:
  "distinct (map fst kvs) \<Longrightarrow> (k, v) \<in> set kvs \<Longrightarrow> map_of (dict_of kvs) k = Some v"
  using map_of_is_SomeI [of "rev kvs" k v]
  by (simp add: dict_of_def fold_update_map_of rev_map [symmetric])

lemma dict_of_length: "distinct (map fst kvs) \<Longrightarrow> length (dict_of kvs) = length kvs"
  using fold_update_length [of kvs "[]"] by (simp add: dict_of_def)

lemma unique_set: "set (unique xs) = set xs"
  by (simp add: unique_def)

lemma unique_distinct: "distinct (unique xs)"
  by (simp add: unique_def)

lemma swap_enumerate_fst: "map fst (map (\<lambda>(i, x). (x, i)) (enumerate 0 xs)) = xs"
  by (simp add: enumerate_eq_zip comp_def case_prod_unfold)

lemma keep_enumerate_fst: "map fst (map (\<lambda>(i, x). (i, x)) (enumerate 0 xs)) = [0..<length xs]"
  by (simp add: enumerate_eq_zip comp_def case_prod_unfold)

lemma movie2movie_encoded_keys:
  "set (map fst (movie2movie_encoded df)) = movieId ` set df"
proof -
  have "set (map fst (movie2movie_encoded df))
          = set (map fst (map (\<lambda>(i, x). (x, i)) (enumerate 0 (movie_ids df))))"
    unfolding movie2movie_encoded_def by (rule dict_of_keys)
  also have "\<dots> = set (movie_ids df)" by (simp only: swap_enumerate_fst)
  also have "\<dots> = movieId ` set df" by (simp add: movie_ids_def unique_set)
  finally show ?thesis .
qed

lemma movie2movie_encoded_Some:
  assumes "map_of (movie2movie_encoded df) x = Some i"
  shows "i < length (movie_ids df) \<and> movie_ids df ! i = x"
proof -
  from assms have "(x, i) \<in> set (map (\<lambda>(i, x). (x, i)) (enumerate 0 (movie_ids df)))"
    unfolding movie2movie_encoded_def by (rule dict_of_SomeD)
  then have "(i, x) \<in> set (enumerate 0 (movie_ids df))" by auto
  then show ?thesis by (simp add: in_set_enumerate_eq)
qed

lemma movie_encoded2movie_Some:
  assumes "i < length (movie_ids df)"
  shows "map_of (movie_encoded2movie df) i = Some (movie_ids df ! i)"
proof -
  let ?kvs = "map (\<lambda>(i, x). (i, x)) (enumerate 0 (movie_ids df))"
  have d: "distinct (map fst ?kvs)" by (simp only: keep_enumerate_fst distinct_upt)
  have "(i, movie_ids df ! i) \<in> set (enumerate 0 (movie_ids df))"
    using assms by (simp add: in_set_enumerate_eq)
  then have "(i, movie_ids df ! i) \<in> set ?kvs" by force
  with d show ?thesis unfolding movie_encoded2movie_def by (rule dict_of_SomeI)
qed

lemma num_movies_df_eq: "num_movies_df df = length (movie_ids df)"
proof -
  let ?kvs = "map (\<lambda>(i, x). (i, x)) (enumerate 0 (movie_ids df))"
  have d: "distinct (map fst ?kvs)" by (simp only: keep_enumerate_fst distinct_upt)
  then have "length (dict_of ?kvs) = length ?kvs" by (rule dict_of_length)
  then show ?thesis by (simp add: num_movies_df_def movie_encoded2movie_def)
qed

lemma recommended_movie_ids_map:
  "\<forall>x\<in>set sel. x < length encs \<Longrightarrow>
     recommended_movie_ids dec encs sel =
       Inr (map (\<lambda>x. case encs ! x of None \<Rightarrow> None | Some i \<Rightarrow> map_of dec i) sel)"
  by (induction sel) simp_all

lemma top_ratings_indices_subset: "set (top_ratings_indices s) \<subseteq> set s"
  by (simp add: top_ratings_indices_def set_drop_subset)

lemma movies_not_watched_unseen:
  assumes "x \<in> movies_not_watched movie_df df user_id"
  shows "not_rated_by df user_id x"
  using assms
  by (auto simp: movies_not_watched_def movies_watched_by_user_def not_rated_by_def list_all_iff)

lemma movies_not_watched_encoded:
  assumes "x \<in> movies_not_watched movie_df df user_id"
  shows "\<exists>i. map_of (movie2movie_encoded df) x = Some i \<and> i < num_movies_df df
           \<and> map_of (movie_encoded2movie df) i = Some x"
proof -
  from assms have "x \<in> set (map fst (movie2movie_encoded df))"
    by (simp add: movies_not_watched_def)
  then have "map_of (movie2movie_encoded df) x \<noteq> None"
    by (simp add: map_of_eq_None_iff)
  then obtain i where i: "map_of (movie2movie_encoded df) x = Some i" by blast
  then have "i < length (movie_ids df)" "movie_ids df ! i = x"
    using movie2movie_encoded_Some by blast+
  with i show ?thesis
    using movie_encoded2movie_Some [of i df] by (simp add: num_movies_df_eq)
qed

text \<open>
  Claim C10. Every movie of the candidate set scored for recommendation is (a) not among
  the movies the selected user has rated in the ratings table and (b) a key of
  \<^verbatim>\<open>movie2movie_encoded\<close>, with a dense index below \<open>num_movies\<close>; consequently the
  recommended movie ids are all found, each is a candidate, and none was rated by that
  user. This holds for every order in which the candidate set is listed and for every
  selection of positions that \<^verbatim>\<open>argsort\<close> returns.
\<close>

theorem candidates_unseen_and_encoded:
  assumes "list_of_set (movies_not_watched movie_df df user_id) cands"
    and "\<forall>i\<in>set sorted_indices. i < length cands"
  shows "(\<forall>x\<in>set cands. not_rated_by df user_id x
            \<and> (\<exists>i. map_of (movie2movie_encoded df) x = Some i \<and> i < num_movies_df df))
       \<and> (\<exists>ids. recommended_movie_ids (movie_encoded2movie df)
                   (encode_candidates (movie2movie_encoded df) cands)
                   (top_ratings_indices sorted_indices) = Inr ids
             \<and> (\<forall>r\<in>set ids. \<exists>x\<in>set cands. r = Some x \<and> not_rated_by df user_id x))"
proof
  from assms(1) have c: "set cands = movies_not_watched movie_df df user_id"
    by (simp add: list_of_set_def)
  show "\<forall>x\<in>set cands. not_rated_by df user_id x
            \<and> (\<exists>i. map_of (movie2movie_encoded df) x = Some i \<and> i < num_movies_df df)"
    using c movies_not_watched_unseen movies_not_watched_encoded by blast
  let ?encs = "encode_candidates (movie2movie_encoded df) cands"
  let ?sel = "top_ratings_indices sorted_indices"
  let ?ids = "map (\<lambda>x. case ?encs ! x of None \<Rightarrow> None
                        | Some i \<Rightarrow> map_of (movie_encoded2movie df) i) ?sel"
  have sel: "\<forall>x\<in>set ?sel. x < length cands"
    using assms(2) top_ratings_indices_subset by blast
  then have "recommended_movie_ids (movie_encoded2movie df) ?encs ?sel = Inr ?ids"
    by (intro recommended_movie_ids_map) (simp add: encode_candidates_def)
  moreover have "\<forall>r\<in>set ?ids. \<exists>x\<in>set cands. r = Some x \<and> not_rated_by df user_id x"
  proof
    fix r assume "r \<in> set ?ids"
    then obtain k where k: "k \<in> set ?sel"
      and r: "r = (case ?encs ! k of None \<Rightarrow> None | Some i \<Rightarrow> map_of (movie_encoded2movie df) i)"
      by auto
    from k sel have kl: "k < length cands" by blast
    then have mem: "cands ! k \<in> movies_not_watched movie_df df user_id"
      using c nth_mem by blast
    from kl have e: "?encs ! k = map_of (movie2movie_encoded df) (cands ! k)"
      by (simp add: encode_candidates_def)
    from movies_not_watched_encoded [OF mem] obtain i where
      "map_of (movie2movie_encoded df) (cands ! k) = Some i"
      "map_of (movie_encoded2movie df) i = Some (cands ! k)" by blast
    with r e have "r = Some (cands ! k)" by simp
    with kl movies_not_watched_unseen [OF mem]
    show "\<exists>x\<in>set cands. r = Some x \<and> not_rated_by df user_id x" by auto
  qed
  ultimately show "\<exists>ids. recommended_movie_ids (movie_encoded2movie df) ?encs ?sel = Inr ids
             \<and> (\<forall>r\<in>set ids. \<exists>x\<in>set cands. r = Some x \<and> not_rated_by df user_id x)"
    by blast
qed

lemma example_encoded: "movie2movie_encoded example_df = [(10, 0), (30, 1), (20, 2), (50, 3)]"
  by (simp add: movie2movie_encoded_def dict_of_def movie_ids_def unique_def example_df_def
      enumerate_eq_zip upt_rec)

lemma example_decoded: "movie_encoded2movie example_df = [(0, 10), (1, 30), (2, 20), (3, 50)]"
  by (simp add: movie_encoded2movie_def dict_of_def movie_ids_def unique_def example_df_def
      enumerate_eq_zip upt_rec)

lemma example_not_watched: "movies_not_watched [10, 20, 30, 40, 50] example_df 1 = {20, 50}"
  unfolding movies_not_watched_def example_encoded
  by (auto simp: movies_watched_by_user_def example_df_def)

theorem candidates_unseen_and_encoded_witness:
  "list_of_set (movies_not_watched [10, 20, 30, 40, 50] example_df 1) [50, 20]
     \<and> list_all (\<lambda>i. i < length [50, 20 :: int]) [0, 1]
     \<and> not_rated_by example_df 1 50 \<and> not_rated_by example_df 1 20
     \<and> recommended_movie_ids (movie_encoded2movie example_df)
          (encode_candidates (movie2movie_encoded example_df) [50, 20])
          (top_ratings_indices [0, 1]) = Inr [Some 20, Some 50]"
proof -
  have c: "list_of_set (movies_not_watched [10, 20, 30, 40, 50] example_df 1) [50, 20]"
    by (auto simp: list_of_set_def example_not_watched)
  have s: "\<forall>i\<in>set [0, 1]. i < length [50, 20 :: int]" by simp
  have r: "recommended_movie_ids (movie_encoded2movie example_df)
          (encode_candidates (movie2movie_encoded example_df) [50, 20])
          (top_ratings_indices [0, 1]) = Inr [Some 20, Some 50]"
    by (simp add: example_encoded example_decoded encode_candidates_def top_ratings_indices_def)
  from candidates_unseen_and_encoded [OF c s]
  have "not_rated_by example_df 1 50 \<and> not_rated_by example_df 1 20" by simp
  moreover have "list_all (\<lambda>i. i < length [50, 20 :: int]) [0, 1]" by simp
  ultimately show ?thesis using c r by blast
qed

section \<open>Properties of the training loss\<close>
































section \<open>Properties of the sentiment model\<close>

lemma gather_total:
  "\<forall>i\<in>set idxs. 0 \<le> i \<and> i < int (length T) \<Longrightarrow>
     \<exists>rows. gather T idxs = Inr rows \<and> length rows = length idxs"
  by (induction idxs) auto

lemma lstm_outputs_length: "length (lstm_outputs stp s xs) = length xs"
  by (induction xs arbitrary: s) (simp_all split: prod.splits)

lemma Bidirectional_length: "length (Bidirectional fw bw xs) = length xs"
  by (simp add: Bidirectional_def LSTM_def lstm_outputs_length)

lemma Dense_length: "length (Dense w b f x) = min (length w) (length b)"
  by (simp add: Dense_def)

lemma Dense_sigmoid_single:
  assumes "length w = 1" "length b = 1"
  shows "\<exists>p. Dense w b sigmoid x = [p] \<and> 0 < p \<and> p < 1"
proof -
  from assms obtain col c where "w = [col]" "b = [c]"
    by (auto simp: length_Suc_conv)
  then show ?thesis by (simp add: Dense_def sigmoid_pos sigmoid_less_one)
qed

lemma pad_sequences_length: "length (pad_sequences n xs) = n"
  by (simp add: pad_sequences_def)

text \<open>
  Claim C2. For every padded integer input sequence of the fixed length 200 the sentiment
  model runs token-embedding lookup, bidirectional recurrent encoding, a dense projection
  and a logistic output. What it returns is not one scalar probability: it is a sequence
  of 200 one-element vectors, one probability for each position of the input, because
  the recurrent layer returns the outputs of all time steps and both dense layers act on
  every time step.
\<close>

theorem model_returns_one_probability_per_position:
  assumes "wf_imdb_net net" "length inputs = maxlen"
    and "\<forall>i\<in>set inputs. 0 \<le> i \<and> i < int max_features"
  shows "\<exists>outputs. model net inputs = Inr outputs \<and> length outputs = 200
           \<and> (\<forall>v\<in>set outputs. \<exists>p. v = [p] \<and> 0 < p \<and> p < 1)"
proof -
  from assms(1) have e: "length (embedding net) = max_features"
    and o: "length (output_kernel net) = 1" "length (output_bias net) = 1"
    by (simp_all add: wf_imdb_net_def)
  from assms(3) e obtain x0 where x0: "gather (embedding net) inputs = Inr x0"
    and l0: "length x0 = length inputs"
    using gather_total [of inputs "embedding net"] by auto
  let ?x = "Bidirectional (forward_layer net) (backward_layer net) x0"
  let ?y = "map (Dense (dense_kernel net) (dense_bias net) (\<lambda>v. v)) ?x"
  let ?outputs = "map (Dense (output_kernel net) (output_bias net) sigmoid) ?y"
  have "model net inputs = Inr ?outputs"
    by (simp add: model_def x0 Let_def)
  moreover have "length ?outputs = 200"
    using l0 assms(2) by (simp add: Bidirectional_length maxlen_def)
  moreover have "\<forall>v\<in>set ?outputs. \<exists>p. v = [p] \<and> 0 < p \<and> p < 1"
    using Dense_sigmoid_single [OF o] by auto
  ultimately show ?thesis by blast
qed

theorem model_returns_one_probability_per_position_witness:
  "wf_imdb_net example_imdb_net \<and> length (pad_sequences maxlen [1, 14, 22]) = maxlen
     \<and> list_all (\<lambda>i. 0 \<le> i \<and> i < int max_features) (pad_sequences maxlen [1, 14, 22])
     \<and> (\<exists>outputs. model example_imdb_net (pad_sequences maxlen [1, 14, 22]) = Inr outputs
           \<and> length outputs = 200 \<and> (\<forall>v\<in>set outputs. \<exists>p. v = [p] \<and> 0 < p \<and> p < 1))"
proof -
  have w: "wf_imdb_net example_imdb_net"
    by (simp add: wf_imdb_net_def example_imdb_net_def max_features_def)
  have l: "length (pad_sequences maxlen [1, 14, 22]) = maxlen"
    by (rule pad_sequences_length)
  have r: "\<forall>i\<in>set (pad_sequences maxlen [1, 14, 22]). 0 \<le> i \<and> i < int max_features"
    by (auto simp: pad_sequences_def maxlen_def max_features_def)
  from r have "list_all (\<lambda>i. 0 \<le> i \<and> i < int max_features) (pad_sequences maxlen [1, 14, 22])"
    by (simp only: list_all_iff)
  with model_returns_one_probability_per_position [OF w l r] w l show ?thesis by blast
qed

end
